theory Spec2Isabelle
  imports Main "HOL-Library.Sublist"
begin

section \<open>tempchk: hardware temperature sensors read from sysfs\<close>

text \<open>
  The development embeds the latest revision of the program: \<open>GetSensorData\<close> and
  \<open>SetGlobalSensorFlags\<close> (the functions file) and \<open>main\<close> with its package-level
  variables. Go's \<open>int\<close> is taken as the 64-bit type of the amd64 target. A run is
  modelled with both command-line flags at their default \<open>false\<close>: \<open>printVersion\<close>
  does not end the run early and \<open>debug\<close> returns at its first test without printing.
\<close>

subsection \<open>Library functions the program calls\<close>

text \<open>
  \<open>strings.Trim(s, cutset)\<close> removes every leading and every trailing byte that is
  in the cutset (the cutsets used by the program are ASCII).
\<close>

definition Trim :: "string \<Rightarrow> string \<Rightarrow> string" where
  "Trim s cutset =
     rev (dropWhile (\<lambda>c. c \<in> set cutset) (rev (dropWhile (\<lambda>c. c \<in> set cutset) s)))"

text \<open>The cutset \<open>" \n"\<close> of the source: a space and a line feed.\<close>

definition spaceNewline :: string where
  "spaceNewline = [CHR '' '', CHR 0x0A]"

text \<open>\<open>strings.Contains(s, substr)\<close>: \<open>substr\<close> occurs in \<open>s\<close> as a contiguous block.\<close>

fun Contains :: "string \<Rightarrow> string \<Rightarrow> bool" where
  "Contains [] substr = (substr = [])"
| "Contains (c # cs) substr = (prefix substr (c # cs) \<or> Contains cs substr)"

text \<open>
  \<open>strconv.Itoa\<close>: the decimal digits of the magnitude, most significant first, after a
  minus sign for a negative number.
\<close>

definition digitChar :: "nat \<Rightarrow> char" where
  "digitChar d = ''0123456789'' ! d"

fun formatUint :: "nat \<Rightarrow> string" where
  "formatUint n = (if n < 10 then [digitChar n] else formatUint (n div 10) @ [digitChar (n mod 10)])"

declare formatUint.simps [simp del]

definition Itoa :: "int \<Rightarrow> string" where
  "Itoa i = (if i < 0 then CHR ''-'' # formatUint (nat (- i)) else formatUint (nat i))"

text \<open>
  \<open>strconv.Atoi\<close>: an optional sign, then one or more decimal digits and nothing else;
  the error result (\<open>None\<close>) covers the syntax error and the value out of the range of
  the 64-bit \<open>int\<close>. The program tests the error before it looks at the value, so the
  value returned beside an error is not modelled.
\<close>

definition isDigit :: "char \<Rightarrow> bool" where
  "isDigit c \<longleftrightarrow> (48::nat) \<le> of_char c \<and> (of_char c :: nat) \<le> 57"

definition digitVal :: "char \<Rightarrow> nat" where
  "digitVal c = of_char c - 48"

fun parseUint :: "nat \<Rightarrow> string \<Rightarrow> nat option" where
  "parseUint n [] = Some n"
| "parseUint n (c # cs) = (if isDigit c then parseUint (n * 10 + digitVal c) cs else None)"

definition minInt :: int where
  "minInt = - (2 ^ 63)"

definition maxInt :: int where
  "maxInt = 2 ^ 63 - 1"

definition inIntRange :: "int \<Rightarrow> bool" where
  "inIntRange v \<longleftrightarrow> minInt \<le> v \<and> v \<le> maxInt"

definition signedValue :: "bool \<Rightarrow> string \<Rightarrow> int option" where
  "signedValue neg ds =
     (if ds = [] then None
      else case parseUint 0 ds of
             None \<Rightarrow> None
           | Some n \<Rightarrow>
               (let v = (if neg then - int n else int n)
                in if inIntRange v then Some v else None))"

definition Atoi :: "string \<Rightarrow> int option" where
  "Atoi s =
     (case s of
        [] \<Rightarrow> None
      | c # cs \<Rightarrow>
          if c = CHR ''-'' then signedValue True cs
          else if c = CHR ''+'' then signedValue False cs
          else signedValue False s)"

text \<open>
  Go's \<open>/\<close> on integers truncates towards zero, and \<open>+=\<close> on an \<open>int\<close> wraps around
  at 64 bits.
\<close>

definition goDiv :: "int \<Rightarrow> int \<Rightarrow> int" where
  "goDiv a b = (if (a < 0) = (b < 0) then \<bar>a\<bar> div \<bar>b\<bar> else - (\<bar>a\<bar> div \<bar>b\<bar>))"

definition wrapInt :: "int \<Rightarrow> int" where
  "wrapInt v = (v + 2 ^ 63) mod 2 ^ 64 - 2 ^ 63"

subsection \<open>The filesystem the program reads\<close>

text \<open>
  A filesystem snapshot lists the readable files with their contents;
  \<open>ioutil.ReadFile\<close> fails (\<open>None\<close>) on every other path. The program tests the
  error together with the length of the data, so the partial data Go may return beside
  an error is not modelled.
\<close>

type_synonym filesystem = "(string \<times> string) list"

definition ReadFile :: "filesystem \<Rightarrow> string \<Rightarrow> string option" where
  "ReadFile fs path = map_of fs path"

subsection \<open>Package-level variables\<close>

definition cpuinfoDirectory :: string where
  "cpuinfoDirectory = ''/proc/cpuinfo''"

definition hardwareMonitorDirectory :: string where
  "hardwareMonitorDirectory = ''/sys/class/hwmon/''"

definition hardwareNameFile :: string where
  "hardwareNameFile = ''name''"

definition tempPrefix :: string where
  "tempPrefix = ''temp''"

definition inputSuffix :: string where
  "inputSuffix = ''_input''"

definition spacerSize :: int where
  "spacerSize = 4"

text \<open>The two variables the run mutates, with their initial values.\<close>

record Globals =
  digitalAmdPowerModuleInUse :: bool
  maxEntryLength :: int

definition initialGlobals :: Globals where
  "initialGlobals = \<lparr>digitalAmdPowerModuleInUse = False, maxEntryLength = 0\<rparr>"

subsection \<open>The Sensor structure\<close>

record Sensor =
  name :: string
  path :: string
  category :: string
  intData :: int
  number :: int
  count :: int

datatype error = InvalidInput | NoValidSensors

subsection \<open>Decimal formatting is injective\<close>

lemma digitChar_cases:
  assumes "(d::nat) < 10"
  shows "d = 0 \<or> d = 1 \<or> d = 2 \<or> d = 3 \<or> d = 4 \<or> d = 5 \<or> d = 6 \<or> d = 7 \<or> d = 8 \<or> d = 9"
  using assms by arith

lemma digitChar_isDigit: "d < 10 \<Longrightarrow> isDigit (digitChar d)"
  using digitChar_cases [of d] by (auto simp: isDigit_def digitChar_def)

lemma digitVal_digitChar: "d < 10 \<Longrightarrow> digitVal (digitChar d) = d"
  using digitChar_cases [of d] by (auto simp: digitVal_def digitChar_def)

lemma parseUint_append:
  "parseUint n (xs @ ys) = (case parseUint n xs of None \<Rightarrow> None | Some m \<Rightarrow> parseUint m ys)"
  by (induction xs arbitrary: n) auto

lemma parseUint_formatUint: "parseUint 0 (formatUint n) = Some n"
proof (induction n rule: formatUint.induct)
  case (1 n)
  show ?case
  proof (cases "n < 10")
    case True
    then show ?thesis
      by (subst formatUint.simps) (simp add: digitChar_isDigit digitVal_digitChar)
  next
    case False
    with 1 have "parseUint 0 (formatUint (n div 10)) = Some (n div 10)"
      by simp
    with False show ?thesis
      by (subst formatUint.simps)
         (simp add: parseUint_append digitChar_isDigit digitVal_digitChar)
  qed
qed

lemma formatUint_inj:
  assumes "formatUint a = formatUint b"
  shows "a = b"
proof -
  have "Some a = parseUint 0 (formatUint a)"
    by (simp only: parseUint_formatUint)
  also have "\<dots> = parseUint 0 (formatUint b)"
    by (simp only: assms)
  also have "\<dots> = Some b"
    by (simp only: parseUint_formatUint)
  finally show ?thesis
    by (simp only: option.inject)
qed

lemma formatUint_digits: "c \<in> set (formatUint n) \<Longrightarrow> isDigit c"
proof (induction n rule: formatUint.induct)
  case (1 n)
  then show ?case
    by (subst (asm) (2) formatUint.simps) (auto simp: digitChar_isDigit split: if_splits)
qed

lemma formatUint_not_Nil: "formatUint n \<noteq> []"
  by (subst formatUint.simps) simp

lemma formatUint_no_minus: "formatUint n \<noteq> CHR ''-'' # cs"
proof
  assume "formatUint n = CHR ''-'' # cs"
  then have "CHR ''-'' \<in> set (formatUint n)"
    by simp
  then have "isDigit CHR ''-''"
    by (rule formatUint_digits)
  then show False
    by (simp add: isDigit_def)
qed

lemma Itoa_inj: "Itoa a = Itoa b \<Longrightarrow> a = b"
proof -
  assume eq: "Itoa a = Itoa b"
  consider "a < 0" "b < 0" | "a < 0" "\<not> b < 0" | "\<not> a < 0" "b < 0" | "\<not> a < 0" "\<not> b < 0"
    by blast
  then show "a = b"
  proof cases
    case 1
    with eq have "nat (- a) = nat (- b)"
      by (simp add: Itoa_def formatUint_inj)
    with 1 show ?thesis by simp
  next
    case 2
    with eq show ?thesis
      using formatUint_no_minus [of "nat b" "formatUint (nat (- a))"] by (simp add: Itoa_def)
  next
    case 3
    with eq show ?thesis
      using formatUint_no_minus [of "nat a" "formatUint (nat (- b))"] by (simp add: Itoa_def)
  next
    case 4
    with eq have "nat a = nat b"
      by (simp add: Itoa_def formatUint_inj)
    with 4 show ?thesis by simp
  qed
qed

subsection \<open>GetSensorData\<close>

text \<open>The path of the input file with index \<open>i\<close> of device directory \<open>hwmon\<close>.\<close>

definition sensorPath :: "string \<Rightarrow> int \<Rightarrow> string" where
  "sensorPath hwmon i =
     hardwareMonitorDirectory @ hwmon @ ''/'' @ tempPrefix @ Itoa i @ inputSuffix"

lemma sensorPath_inj: "sensorPath hwmon i = sensorPath hwmon j \<Longrightarrow> i = j"
  by (simp add: sensorPath_def Itoa_inj)

lemma filter_length_shrinks:
  assumes "x \<in> set xs" and "P x" and "\<not> Q x" and "\<And>y. Q y \<Longrightarrow> P y"
  shows "length (filter Q xs) < length (filter P xs)"
proof -
  have "filter Q xs = filter Q (filter P xs)"
    using assms(4) by (auto intro: filter_cong)
  moreover have "length (filter Q (filter P xs)) < length (filter P xs)"
    using assms(1-3) by (intro length_filter_less [of x]) auto
  ultimately show ?thesis by simp
qed

text \<open>
  The first loop: \<open>count\<close> starts at 1 and goes up while the input file of that index
  can be read and is not empty; the loop leaves with \<open>count - 1\<close>. It ends because a
  snapshot holds finitely many files and the paths of different indices differ. (The
  counter is an unbounded integer here: it could only wrap after \<open>2 ^ 63 - 1\<close>
  consecutive input files.)
\<close>

function countSensors :: "filesystem \<Rightarrow> string \<Rightarrow> int \<Rightarrow> int" where
  "countSensors fs hwmon cnt =
     (case ReadFile fs (sensorPath hwmon cnt) of
        None \<Rightarrow> cnt - 1
      | Some rawData \<Rightarrow>
          if length rawData < 1 then cnt - 1 else countSensors fs hwmon (cnt + 1))"
  by pat_completeness auto
termination
proof (relation "measure (\<lambda>(fs, hwmon, cnt).
         length (filter (\<lambda>p. \<exists>j\<ge>cnt. p = sensorPath hwmon j) (map fst fs)))")
  show "wf (measure (\<lambda>(fs, hwmon, cnt).
         length (filter (\<lambda>p. \<exists>j\<ge>cnt. p = sensorPath hwmon j) (map fst fs))))"
    by simp
next
  fix fs :: filesystem and hwmon :: string and cnt :: int and rawData :: string
  assume rd: "ReadFile fs (sensorPath hwmon cnt) = Some rawData"
  then have "sensorPath hwmon cnt \<in> set (map fst fs)"
    by (auto simp: ReadFile_def dest: map_of_SomeD intro: rev_image_eqI)
  moreover have "\<exists>j\<ge>cnt. sensorPath hwmon cnt = sensorPath hwmon j"
    by blast
  moreover have "\<not> (\<exists>j\<ge>cnt + 1. sensorPath hwmon cnt = sensorPath hwmon j)"
    by (auto dest: sensorPath_inj)
  moreover have "\<exists>j\<ge>cnt. y = sensorPath hwmon j"
    if "\<exists>j\<ge>cnt + 1. y = sensorPath hwmon j" for y
  proof -
    from that obtain j where "cnt + 1 \<le> j" and "y = sensorPath hwmon j"
      by blast
    then have "cnt \<le> j \<and> y = sensorPath hwmon j"
      by simp
    then show ?thesis
      by blast
  qed
  ultimately have
    "length (filter (\<lambda>p. \<exists>j\<ge>cnt + 1. p = sensorPath hwmon j) (map fst fs))
       < length (filter (\<lambda>p. \<exists>j\<ge>cnt. p = sensorPath hwmon j) (map fst fs))"
    by (rule filter_length_shrinks)
  then show "((fs, hwmon, cnt + 1), (fs, hwmon, cnt)) \<in> measure (\<lambda>(fs, hwmon, cnt).
         length (filter (\<lambda>p. \<exists>j\<ge>cnt. p = sensorPath hwmon j) (map fst fs)))"
    by simp
qed

declare countSensors.simps [simp del]

text \<open>
  The second loop, from \<open>i = 1\<close> to \<open>count\<close>: \<open>break\<close> when the file cannot be read
  or is empty, \<open>continue\<close> when its trimmed content is no integer or is below 1,
  otherwise append a Sensor.
\<close>

function readSensors ::
  "filesystem \<Rightarrow> string \<Rightarrow> string \<Rightarrow> int \<Rightarrow> int \<Rightarrow> Sensor list \<Rightarrow> Sensor list" where
  "readSensors fs devName hwmon cnt i sensors =
     (if i \<le> cnt then
        (case ReadFile fs (sensorPath hwmon i) of
           None \<Rightarrow> sensors
         | Some rawData \<Rightarrow>
             if length rawData < 1 then sensors
             else
               (case Atoi (Trim rawData spaceNewline) of
                  None \<Rightarrow> readSensors fs devName hwmon cnt (i + 1) sensors
                | Some trimmedIntData \<Rightarrow>
                    if trimmedIntData < 1 then readSensors fs devName hwmon cnt (i + 1) sensors
                    else readSensors fs devName hwmon cnt (i + 1)
                           (sensors @
                              [\<lparr>name = devName, path = sensorPath hwmon i, category = tempPrefix,
                                intData = trimmedIntData, number = i, count = cnt\<rparr>])))
      else sensors)"
  by pat_completeness auto
termination
  by (relation "measure (\<lambda>(fs, devName, hwmon, cnt, i, sensors). nat (cnt + 1 - i))") auto

declare readSensors.simps [simp del]

text \<open>
  Reads of sysfs attributes are live, so the second loop may find a file that the first
  loop has read gone or failing: \<open>GetSensorData\<close> takes the snapshot its first loop
  sees and the one its second loop sees. Each loop reads each path once, so one snapshot
  per loop is the general case; on an unchanging filesystem both are the same.
\<close>

definition GetSensorData ::
  "filesystem \<Rightarrow> filesystem \<Rightarrow> string \<Rightarrow> string \<Rightarrow> error + Sensor list" where
  "GetSensorData fsCount fsRead devName hwmon =
     (if devName = [] \<or> hwmon = [] then Inl InvalidInput
      else
        (let cnt = countSensors fsCount hwmon 1;
             sensors = readSensors fsRead devName hwmon cnt 1 []
         in if length sensors = 0 then Inl NoValidSensors else Inr sensors))"

subsection \<open>SetGlobalSensorFlags\<close>

definition nameFilePath :: "string \<Rightarrow> string" where
  "nameFilePath dir = hardwareMonitorDirectory @ dir @ ''/'' @ hardwareNameFile"

text \<open>
  The loop over the device directories: a directory whose name file cannot be read or
  is empty is passed over; otherwise the trimmed name may raise \<open>maxEntryLength\<close> and,
  when it is \<open>fam15h_power\<close>, sets the flag.
\<close>

fun scanDeviceNames :: "filesystem \<Rightarrow> string list \<Rightarrow> Globals \<Rightarrow> Globals" where
  "scanDeviceNames fs [] g = g"
| "scanDeviceNames fs (dir # dirs) g =
     (case ReadFile fs (nameFilePath dir) of
        None \<Rightarrow> scanDeviceNames fs dirs g
      | Some nameValueOfHardwareDevice \<Rightarrow>
          if length nameValueOfHardwareDevice < 1 then scanDeviceNames fs dirs g
          else
            (let nameAsString = Trim nameValueOfHardwareDevice spaceNewline;
                 g1 = (if int (length nameAsString) > maxEntryLength g
                       then g\<lparr>maxEntryLength := int (length nameAsString)\<rparr> else g);
                 g2 = (if nameAsString = ''fam15h_power''
                       then g1\<lparr>digitalAmdPowerModuleInUse := True\<rparr> else g1)
             in scanDeviceNames fs dirs g2))"

text \<open>
  The function returns its error (\<open>None\<close> for Go's \<open>nil\<close>) beside the package-level
  variables as it leaves them. A \<open>nil\<close> slice and an empty one are both the empty list.
\<close>

definition SetGlobalSensorFlags ::
  "filesystem \<Rightarrow> string list \<Rightarrow> Globals \<Rightarrow> error option \<times> Globals" where
  "SetGlobalSensorFlags fs dirs g =
     (if length dirs < 1 then (Some InvalidInput, g)
      else
        (let g' = scanDeviceNames fs dirs g
         in case ReadFile fs cpuinfoDirectory of
              None \<Rightarrow> (None, g')
            | Some cpuinfoFileAsBytes \<Rightarrow>
                if length cpuinfoFileAsBytes = 0 then (None, g')
                else
                  (let cpuinfoString = cpuinfoFileAsBytes
                   in if cpuinfoString = [] then (None, g')
                      else if Contains cpuinfoString ''Ryzen''
                        then (None, g'\<lparr>digitalAmdPowerModuleInUse := True\<rparr>)
                        else (None, g'))))"

subsection \<open>main\<close>

text \<open>
  A line of the report is kept as the operands of its \<open>fmt.Println\<close> call: the
  directory name and the padded device name, then either the \<open>N/A\<close> marker or the
  value and the sensor label. \<open>renderLine\<close> gives the text: \<open>Println\<close> puts a space
  between operands (the literal of two spaces is the second operand of every call).
\<close>

datatype report_line =
  NotAvailable string string
| Reading string string int string

fun renderLine :: "report_line \<Rightarrow> string" where
  "renderLine (NotAvailable dir paddedName) =
     dir @ '' '' @ ''  '' @ '' '' @ paddedName @ '' '' @ ''N/A''"
| "renderLine (Reading dir paddedName v sensorLabel) =
     dir @ '' '' @ ''  '' @ '' '' @ paddedName @ '' '' @ Itoa v @ '' '' @ sensorLabel"

fun lineDevice :: "report_line \<Rightarrow> string" where
  "lineDevice (NotAvailable dir paddedName) = dir"
| "lineDevice (Reading dir paddedName v sensorLabel) = dir"

text \<open>The padding loop: spaces are appended while the name is shorter than the width.\<close>

function padName :: "string \<Rightarrow> int \<Rightarrow> string" where
  "padName paddedName width =
     (if int (length paddedName) < width then padName (paddedName @ '' '') width
      else paddedName)"
  by pat_completeness auto
termination
  by (relation "measure (\<lambda>(paddedName, width). nat (width - int (length paddedName)))") auto

declare padName.simps [simp del]

text \<open>
  The body of the loop over the sensors of a device, up to the value that is printed:
  the division by 1000 and the work-around for the k10temp module.
\<close>

definition normalizeSensor :: "Globals \<Rightarrow> Sensor \<Rightarrow> Sensor" where
  "normalizeSensor g sensor =
     (let s1 = sensor\<lparr>intData := goDiv (intData sensor) 1000\<rparr>
      in if name s1 = ''k10temp'' \<and> \<not> digitalAmdPowerModuleInUse g
         then s1\<lparr>intData := wrapInt (intData s1 + 30)\<rparr> else s1)"

definition sensorLine :: "Globals \<Rightarrow> string \<Rightarrow> Sensor \<Rightarrow> report_line" where
  "sensorLine g dir sensor0 =
     (let sensor = normalizeSensor g sensor0;
          paddedName = padName (name sensor) (maxEntryLength g + spacerSize);
          sensorLabel = (if category sensor = ''temp'' then ''C'' else []);
          sensorLabel = (if category sensor = ''temp''
                         then sensorLabel @ ''   temperature sensor '' @ Itoa (number sensor)
                         else sensorLabel)
      in Reading dir paddedName (intData sensor) sensorLabel)"

text \<open>
  The body of the loop over the device directories: the lines it prints for one
  directory. A directory whose name file cannot be read or is empty is left with
  \<open>continue\<close> before anything is printed.
\<close>

definition deviceLines :: "filesystem \<Rightarrow> Globals \<Rightarrow> string \<Rightarrow> report_line list" where
  "deviceLines fs g dir =
     (case ReadFile fs (nameFilePath dir) of
        None \<Rightarrow> []
      | Some nameValueOfHardwareDevice \<Rightarrow>
          if length nameValueOfHardwareDevice < 1 then []
          else
            (let trimmedName = Trim nameValueOfHardwareDevice spaceNewline
             in case GetSensorData fs fs trimmedName dir of
                  Inl err \<Rightarrow>
                    [NotAvailable dir (padName trimmedName (maxEntryLength g + spacerSize))]
                | Inr sensors \<Rightarrow>
                    if length sensors < 1
                    then [NotAvailable dir (padName trimmedName (maxEntryLength g + spacerSize))]
                    else map (sensorLine g dir) sensors))"

text \<open>
  How a run ends: the panic on the failed \<open>ioutil.ReadDir\<close> (Go exits with status 2
  and nothing has been written to standard output), \<open>os.Exit(1)\<close> after the error of
  \<open>SetGlobalSensorFlags\<close> has been printed, or the return from \<open>main\<close> after the
  report. The listing of the hardware-monitor directory is \<open>None\<close> when
  \<open>ioutil.ReadDir\<close> fails.
\<close>

datatype outcome =
  Panic
| ErrorExit error
| Report "report_line list"

fun exitStatus :: "outcome \<Rightarrow> int" where
  "exitStatus Panic = 2"
| "exitStatus (ErrorExit err) = 1"
| "exitStatus (Report ls) = 0"

fun reportLines :: "outcome \<Rightarrow> report_line list" where
  "reportLines Panic = []"
| "reportLines (ErrorExit err) = []"
| "reportLines (Report ls) = ls"

definition main :: "string list option \<Rightarrow> filesystem \<Rightarrow> outcome" where
  "main listing fs =
     (case listing of
        None \<Rightarrow> Panic
      | Some listOfDeviceDirs \<Rightarrow>
          (case SetGlobalSensorFlags fs listOfDeviceDirs initialGlobals of
             (Some err, g) \<Rightarrow> ErrorExit err
           | (None, g) \<Rightarrow> Report (concat (map (deviceLines fs g) listOfDeviceDirs))))"

section \<open>Properties\<close>

subsection \<open>Normalization of a reading\<close>

lemma wrapInt_id: "- (2 ^ 63) \<le> v \<Longrightarrow> v < 2 ^ 63 \<Longrightarrow> wrapInt v = v"
  by (simp add: wrapInt_def)

lemma goDiv_1000_bounds:
  assumes "inIntRange r"
  shows "- (2 ^ 62) \<le> goDiv r 1000" and "goDiv r 1000 \<le> 2 ^ 62"
proof -
  define q where "q = \<bar>r\<bar> div 1000"
  have "0 \<le> q"
    by (simp add: q_def)
  moreover have "q \<le> 2 ^ 63 div 1000"
    unfolding q_def
  proof (rule zdiv_mono1)
    show "\<bar>r\<bar> \<le> 2 ^ 63"
      using assms unfolding inIntRange_def minInt_def maxInt_def by linarith
  qed simp
  moreover have "goDiv r 1000 = q \<or> goDiv r 1000 = - q"
    by (simp add: goDiv_def q_def)
  ultimately show "- (2 ^ 62) \<le> goDiv r 1000" and "goDiv r 1000 \<le> 2 ^ 62"
    by auto
qed

lemma goDiv_sgn: "goDiv a b = sgn a * sgn b * (\<bar>a\<bar> div \<bar>b\<bar>)"
  by (cases "a = 0") (auto simp: goDiv_def sgn_if)

text \<open>
  C1. For a reading with raw value \<open>R\<close> (any value of the 64-bit \<open>int\<close>) and device
  label \<open>L\<close>, the value that is printed is \<open>R\<close> divided by 1000 with the quotient
  truncated towards zero, plus 30 exactly when \<open>L\<close> is \<open>k10temp\<close> and the flag
  \<open>digitalAmdPowerModuleInUse\<close> is false; no other field of the Sensor changes.
\<close>

theorem normalizeSensor_value:
  assumes "inIntRange (intData sensor)"
  shows "normalizeSensor g sensor =
           sensor\<lparr>intData :=
             sgn (intData sensor) * (\<bar>intData sensor\<bar> div 1000)
               + (if name sensor = ''k10temp'' \<and> \<not> digitalAmdPowerModuleInUse g
                  then 30 else 0)\<rparr>"
proof -
  have q: "goDiv (intData sensor) 1000 = sgn (intData sensor) * (\<bar>intData sensor\<bar> div 1000)"
    by (simp add: goDiv_sgn)
  have "wrapInt (goDiv (intData sensor) 1000 + 30) = goDiv (intData sensor) 1000 + 30"
    using goDiv_1000_bounds [OF assms] by (intro wrapInt_id) simp_all
  with q show ?thesis
    by (simp add: normalizeSensor_def Let_def)
qed

theorem normalizeSensor_value_witness:
  "inIntRange 45999 \<and>
   normalizeSensor initialGlobals
     \<lparr>name = ''k10temp'', path = ''/sys/class/hwmon/hwmon0/temp1_input'', category = ''temp'',
      intData = 45999, number = 1, count = 1\<rparr>
   = \<lparr>name = ''k10temp'', path = ''/sys/class/hwmon/hwmon0/temp1_input'', category = ''temp'',
      intData = 75, number = 1, count = 1\<rparr>"
proof -
  have r: "inIntRange (intData \<lparr>name = ''k10temp'', path = ''/sys/class/hwmon/hwmon0/temp1_input'',
      category = ''temp'', intData = 45999, number = 1, count = 1\<rparr>)"
    by (simp add: inIntRange_def minInt_def maxInt_def)
  show ?thesis
    using normalizeSensor_value [OF r, of initialGlobals]
    by (simp add: inIntRange_def minInt_def maxInt_def initialGlobals_def)
qed

subsection \<open>How a run ends\<close>

text \<open>
  C8. When the hardware-monitor directory cannot be listed the run panics: the exit
  status is not zero and no line has been printed. No other failure of the filesystem
  ends the run: with a listing, whatever the files are, the run never panics, and its
  exit status is zero unless the listing is empty.
\<close>

theorem main_unlistable_root_is_fatal:
  "main None fs = Panic \<and> exitStatus (main None fs) \<noteq> 0 \<and> reportLines (main None fs) = []
   \<and> main (Some dirs) fs \<noteq> Panic
   \<and> (exitStatus (main (Some dirs) fs) = 0) = (dirs \<noteq> [])"
  by (cases dirs)
     (simp_all add: main_def SetGlobalSensorFlags_def Let_def split: option.split)

text \<open>
  C10. On an empty listing \<open>SetGlobalSensorFlags\<close> returns its invalid-input error and
  leaves the variables as they are; the run exits with status 1 and prints no report
  line. No file decides this: the results are the same on every filesystem, the one
  without any file included, so the CPU identification file plays no part.
\<close>

theorem main_empty_listing_exits:
  "SetGlobalSensorFlags fs [] g = (Some InvalidInput, g)
   \<and> main (Some []) fs = ErrorExit InvalidInput
   \<and> exitStatus (main (Some []) fs) = 1
   \<and> reportLines (main (Some []) fs) = []
   \<and> main (Some []) fs = main (Some []) []"
  by (simp add: main_def SetGlobalSensorFlags_def)

subsection \<open>What a snapshot holds for a device\<close>

text \<open>
  The notions the statements below are written in. The input file of index \<open>i\<close> is
  readable when reading it succeeds with at least one byte. Its valid reading is the
  integer its trimmed content parses to, when there is one and it is at least 1.
\<close>

definition inputReadable :: "filesystem \<Rightarrow> string \<Rightarrow> int \<Rightarrow> bool" where
  "inputReadable fs hwmon i =
     (case ReadFile fs (sensorPath hwmon i) of None \<Rightarrow> False | Some rawData \<Rightarrow> rawData \<noteq> [])"

definition validReading :: "filesystem \<Rightarrow> string \<Rightarrow> int \<Rightarrow> int option" where
  "validReading fs hwmon i =
     (case ReadFile fs (sensorPath hwmon i) of
        None \<Rightarrow> None
      | Some rawData \<Rightarrow>
          (case Atoi (Trim rawData spaceNewline) of
             None \<Rightarrow> None
           | Some v \<Rightarrow> if 1 \<le> v then Some v else None))"

text \<open>The Sensor that index \<open>i\<close> gives when its reading is valid.\<close>

definition sensorAt :: "filesystem \<Rightarrow> string \<Rightarrow> string \<Rightarrow> int \<Rightarrow> int \<Rightarrow> Sensor option" where
  "sensorAt fs devName hwmon cnt i =
     map_option
       (\<lambda>v. \<lparr>name = devName, path = sensorPath hwmon i, category = tempPrefix,
             intData = v, number = i, count = cnt\<rparr>)
       (validReading fs hwmon i)"

text \<open>Filesystems for the examples.\<close>

definition fsThreeInputs :: filesystem where
  "fsThreeInputs =
     [(''/sys/class/hwmon/hwmon0/temp1_input'', ''45000'' @ [CHR 0x0A]),
      (''/sys/class/hwmon/hwmon0/temp2_input'', ''abc''),
      (''/sys/class/hwmon/hwmon0/temp3_input'', ''50000''),
      (''/sys/class/hwmon/hwmon0/temp4_input'', []),
      (''/sys/class/hwmon/hwmon0/temp5_input'', ''61000'')]"

definition fsTwoInputs :: filesystem where
  "fsTwoInputs =
     [(''/sys/class/hwmon/hwmon0/temp1_input'', ''45000''),
      (''/sys/class/hwmon/hwmon0/temp2_input'', ''50000'')]"

definition fsFirstInputGone :: filesystem where
  "fsFirstInputGone =
     [(''/sys/class/hwmon/hwmon0/temp2_input'', ''50000'')]"

lemmas evalPaths =
  sensorPath_def nameFilePath_def hardwareMonitorDirectory_def hardwareNameFile_def
  tempPrefix_def inputSuffix_def cpuinfoDirectory_def Itoa_def formatUint.simps digitChar_def
  ReadFile_def

lemmas evalAtoi =
  Atoi_def signedValue_def isDigit_def digitVal_def inIntRange_def minInt_def maxInt_def
  Trim_def spaceNewline_def

subsection \<open>The count of the first loop\<close>

lemma countSensors_spec:
  "cnt - 1 \<le> countSensors fs hwmon cnt
   \<and> (\<forall>i. cnt \<le> i \<and> i \<le> countSensors fs hwmon cnt \<longrightarrow> inputReadable fs hwmon i)
   \<and> \<not> inputReadable fs hwmon (countSensors fs hwmon cnt + 1)"
proof (induction fs hwmon cnt rule: countSensors.induct)
  case (1 fs hwmon cnt)
  show ?case
  proof (cases "inputReadable fs hwmon cnt")
    case False
    then have "countSensors fs hwmon cnt = cnt - 1"
      by (subst countSensors.simps) (simp add: inputReadable_def split: option.splits)
    with False show ?thesis
      by auto
  next
    case True
    then obtain rawData where
      rd: "ReadFile fs (sensorPath hwmon cnt) = Some rawData" and ne: "\<not> length rawData < 1"
      by (auto simp: inputReadable_def split: option.splits)
    then have step: "countSensors fs hwmon cnt = countSensors fs hwmon (cnt + 1)"
      by (subst countSensors.simps) simp
    have ih: "cnt \<le> countSensors fs hwmon (cnt + 1)"
      "\<forall>i. cnt + 1 \<le> i \<and> i \<le> countSensors fs hwmon (cnt + 1) \<longrightarrow> inputReadable fs hwmon i"
      "\<not> inputReadable fs hwmon (countSensors fs hwmon (cnt + 1) + 1)"
      using "1.IH" [OF rd ne] by simp_all
    have "inputReadable fs hwmon i"
      if "cnt \<le> i" and "i \<le> countSensors fs hwmon (cnt + 1)" for i
    proof (cases "i = cnt")
      case True
      with \<open>inputReadable fs hwmon cnt\<close> show ?thesis by (simp only:)
    next
      case False
      with that have "cnt + 1 \<le> i \<and> i \<le> countSensors fs hwmon (cnt + 1)"
        by linarith
      with ih(2) show ?thesis by blast
    qed
    then have all: "\<forall>i. cnt \<le> i \<and> i \<le> countSensors fs hwmon (cnt + 1) \<longrightarrow> inputReadable fs hwmon i"
      by blast
    have "cnt - 1 \<le> countSensors fs hwmon (cnt + 1)"
      using ih(1) by linarith
    with all ih(3) show ?thesis
      unfolding step by blast
  qed
qed

text \<open>
  C3. The count the first loop establishes for a device is the largest \<open>N \<ge> 0\<close> such
  that the input files of all indices \<open>1..N\<close> are readable and not empty: probing
  starts at index 1 and stops at the first file that is missing or empty.
\<close>

theorem countSensors_largest_readable_prefix:
  "0 \<le> countSensors fs hwmon 1
   \<and> (\<forall>i\<in>{1..countSensors fs hwmon 1}. inputReadable fs hwmon i)
   \<and> (\<forall>n\<ge>0. (\<forall>i\<in>{1..n}. inputReadable fs hwmon i) \<longrightarrow> n \<le> countSensors fs hwmon 1)"
proof -
  define N where "N = countSensors fs hwmon 1"
  have lower: "0 \<le> N"
    and all: "\<forall>i. 1 \<le> i \<and> i \<le> N \<longrightarrow> inputReadable fs hwmon i"
    and stop: "\<not> inputReadable fs hwmon (N + 1)"
    using countSensors_spec [of 1 fs hwmon] by (simp_all add: N_def)
  have "n \<le> N" if "0 \<le> n" and r: "\<forall>i\<in>{1..n}. inputReadable fs hwmon i" for n
  proof (rule ccontr)
    assume "\<not> n \<le> N"
    with lower have "N + 1 \<in> {1..n}"
      by simp
    with r have "inputReadable fs hwmon (N + 1)"
      by blast
    with stop show False
      by contradiction
  qed
  then have largest: "\<forall>n\<ge>0. (\<forall>i\<in>{1..n}. inputReadable fs hwmon i) \<longrightarrow> n \<le> N"
    by blast
  from all have prefix: "\<forall>i\<in>{1..N}. inputReadable fs hwmon i"
    by simp
  from lower prefix largest show ?thesis
    unfolding N_def by blast
qed

theorem countSensors_largest_readable_prefix_witness:
  "countSensors fsThreeInputs ''hwmon0'' 1 = 3
   \<and> inputReadable fsThreeInputs ''hwmon0'' 1
   \<and> inputReadable fsThreeInputs ''hwmon0'' 2
   \<and> inputReadable fsThreeInputs ''hwmon0'' 3
   \<and> \<not> inputReadable fsThreeInputs ''hwmon0'' 4"
proof -
  have c: "countSensors fsThreeInputs ''hwmon0'' 1 = 3"
    by (simp add: countSensors.simps evalPaths fsThreeInputs_def)
  have stop: "\<not> inputReadable fsThreeInputs ''hwmon0'' 4"
    by (simp add: inputReadable_def evalPaths fsThreeInputs_def)
  have "\<forall>i\<in>{1..3}. inputReadable fsThreeInputs ''hwmon0'' i"
    using countSensors_largest_readable_prefix [of fsThreeInputs "''hwmon0''"]
    unfolding c by blast
  then have "inputReadable fsThreeInputs ''hwmon0'' 1" "inputReadable fsThreeInputs ''hwmon0'' 2"
    "inputReadable fsThreeInputs ''hwmon0'' 3"
    by simp_all
  with c stop show ?thesis
    by simp
qed

subsection \<open>The result of the second loop\<close>

lemma validReading_readable: "validReading fs hwmon i = Some v \<Longrightarrow> inputReadable fs hwmon i"
  by (auto simp: validReading_def inputReadable_def Trim_def Atoi_def split: option.splits)

lemma Atoi_range: "Atoi s = Some v \<Longrightarrow> inIntRange v"
  by (auto simp: Atoi_def signedValue_def Let_def split: list.splits if_splits option.splits)

lemma validReading_range: "validReading fs hwmon i = Some v \<Longrightarrow> 1 \<le> v \<and> inIntRange v"
  by (auto simp: validReading_def split: option.splits if_splits dest: Atoi_range)

text \<open>
  The second loop covers the indices up to the first file that is not readable and
  turns each valid reading on the way into a Sensor, in the order of the indices.
\<close>

lemma readSensors_eq:
  "readSensors fs devName hwmon cnt i sensors =
     sensors @ List.map_filter (sensorAt fs devName hwmon cnt)
                 (takeWhile (inputReadable fs hwmon) [i..cnt])"
proof (induction fs devName hwmon cnt i sensors rule: readSensors.induct)
  case (1 fs devName hwmon cnt i sensors)
  show ?case
  proof (cases "i \<le> cnt")
    case False
    then show ?thesis
      by (subst readSensors.simps) simp
  next
    case le: True
    then have range: "[i..cnt] = i # [i + 1..cnt]"
      by (simp add: upto_rec1)
    show ?thesis
    proof (cases "inputReadable fs hwmon i")
      case False
      then have "readSensors fs devName hwmon cnt i sensors = sensors"
        by (subst readSensors.simps) (simp add: inputReadable_def split: option.splits)
      with False show ?thesis
        by (simp add: range)
    next
      case True
      then obtain rawData where
        rd: "ReadFile fs (sensorPath hwmon i) = Some rawData" and ne: "\<not> length rawData < 1"
        by (auto simp: inputReadable_def split: option.splits)
      show ?thesis
      proof (cases "Atoi (Trim rawData spaceNewline)")
        case None
        with rd have skip: "sensorAt fs devName hwmon cnt i = None"
          by (simp add: sensorAt_def validReading_def)
        have "readSensors fs devName hwmon cnt i sensors =
                readSensors fs devName hwmon cnt (i + 1) sensors"
          using le rd ne None by (subst readSensors.simps) simp
        also have "\<dots> = sensors @ List.map_filter (sensorAt fs devName hwmon cnt)
                 (takeWhile (inputReadable fs hwmon) [i + 1..cnt])"
          using "1.IH"(1) [OF le rd ne None] .
        finally show ?thesis
          using True skip by (simp add: range)
      next
        case (Some trimmedIntData)
        show ?thesis
        proof (cases "trimmedIntData < 1")
          case low: True
          with rd Some have skip: "sensorAt fs devName hwmon cnt i = None"
            by (simp add: sensorAt_def validReading_def)
          have "readSensors fs devName hwmon cnt i sensors =
                  readSensors fs devName hwmon cnt (i + 1) sensors"
            using le rd ne Some low by (subst readSensors.simps) simp
          also have "\<dots> = sensors @ List.map_filter (sensorAt fs devName hwmon cnt)
                   (takeWhile (inputReadable fs hwmon) [i + 1..cnt])"
            using "1.IH"(2) [OF le rd ne Some low] .
          finally show ?thesis
            using True skip by (simp add: range)
        next
          case ok: False
          define sensor where
            "sensor = \<lparr>name = devName, path = sensorPath hwmon i, category = tempPrefix,
                       intData = trimmedIntData, number = i, count = cnt\<rparr>"
          from rd Some ok have keep: "sensorAt fs devName hwmon cnt i = Some sensor"
            by (simp add: sensorAt_def validReading_def sensor_def)
          have "readSensors fs devName hwmon cnt i sensors =
                  readSensors fs devName hwmon cnt (i + 1) (sensors @ [sensor])"
            using le rd ne Some ok by (subst readSensors.simps) (simp add: sensor_def)
          also have "\<dots> = (sensors @ [sensor]) @ List.map_filter (sensorAt fs devName hwmon cnt)
                   (takeWhile (inputReadable fs hwmon) [i + 1..cnt])"
            using "1.IH"(3) [OF le rd ne Some ok] by (simp only: sensor_def)
          finally show ?thesis
            using True keep by (simp add: range)
        qed
      qed
    qed
  qed
qed

lemma map_filter_sensorAt_number:
  "map number (List.map_filter (sensorAt fs devName hwmon cnt) xs) =
     filter (\<lambda>i. validReading fs hwmon i \<noteq> None) xs"
  by (induction xs) (auto simp: sensorAt_def split: option.splits)

lemma map_filter_sensorAt_member:
  assumes "s \<in> set (List.map_filter (sensorAt fs devName hwmon cnt) xs)"
  shows "\<exists>i\<in>set xs. sensorAt fs devName hwmon cnt i = Some s"
  using assms by (induction xs) (auto split: option.splits)

lemma takeWhile_all: "\<forall>x\<in>set xs. P x \<Longrightarrow> takeWhile P xs = xs"
  by (induction xs) auto

text \<open>
  C4, as the code has it. The second loop keeps exactly the indices with a valid reading
  among those before the first index whose file cannot be read or is empty at that time:
  a file that does not parse, or parses below 1, is passed over and the scan goes on,
  while an unreadable or empty file ends the scan. When the files are as the first loop
  found them, no index of \<open>1..count\<close> is unreadable, and the result is every index of
  \<open>1..count\<close> with a valid reading.
\<close>

theorem readSensors_indices:
  "map number (readSensors fsRead devName hwmon cnt 1 []) =
     filter (\<lambda>i. validReading fsRead hwmon i \<noteq> None)
       (takeWhile (inputReadable fsRead hwmon) [1..cnt])
   \<and> map number (readSensors fs devName hwmon (countSensors fs hwmon 1) 1 []) =
       filter (\<lambda>i. validReading fs hwmon i \<noteq> None) [1..countSensors fs hwmon 1]"
proof -
  have "\<forall>i\<in>set [1..countSensors fs hwmon 1]. inputReadable fs hwmon i"
    using countSensors_spec [of 1 fs hwmon] by simp
  then have all: "takeWhile (inputReadable fs hwmon) [1..countSensors fs hwmon 1] =
               [1..countSensors fs hwmon 1]"
    by (rule takeWhile_all)
  show ?thesis
    unfolding readSensors_eq append_Nil map_filter_sensorAt_number all by simp
qed

text \<open>
  The claim as the spec words it fails: the first loop counts two input files, both
  with valid readings; by the time of the second loop the first file cannot be read any
  more, the second is unchanged, and yet index 2 is not in the result.
\<close>

theorem readSensors_stops_at_unreadable_counterexample:
  "countSensors fsTwoInputs ''hwmon0'' 1 = 2
   \<and> \<not> inputReadable fsFirstInputGone ''hwmon0'' 1
   \<and> validReading fsFirstInputGone ''hwmon0'' 2 = Some 50000
   \<and> readSensors fsFirstInputGone ''k10temp'' ''hwmon0''
        (countSensors fsTwoInputs ''hwmon0'' 1) 1 [] = []
   \<and> GetSensorData fsTwoInputs fsFirstInputGone ''k10temp'' ''hwmon0'' = Inl NoValidSensors"
proof -
  have c: "countSensors fsTwoInputs ''hwmon0'' 1 = 2"
    by (simp add: countSensors.simps evalPaths fsTwoInputs_def)
  have r: "\<not> inputReadable fsFirstInputGone ''hwmon0'' 1"
    by (simp add: inputReadable_def evalPaths fsFirstInputGone_def)
  have v: "validReading fsFirstInputGone ''hwmon0'' 2 = Some 50000"
    by (simp add: validReading_def evalPaths evalAtoi fsFirstInputGone_def)
  have s: "readSensors fsFirstInputGone ''k10temp'' ''hwmon0'' 2 1 [] = []"
    by (simp add: readSensors.simps evalPaths fsFirstInputGone_def)
  from c r v s show ?thesis
    by (simp add: GetSensorData_def)
qed

text \<open>
  C9. In a list that \<open>GetSensorData\<close> returns without error, every Sensor has
  \<open>1 \<le> number \<le> count\<close>, every \<open>count\<close> is the count the first loop established,
  and the numbers increase strictly along the list.
\<close>

theorem GetSensorData_numbers:
  assumes "GetSensorData fsCount fsRead devName hwmon = Inr sensors"
  shows "(\<forall>s\<in>set sensors. 1 \<le> number s \<and> number s \<le> count s
            \<and> count s = countSensors fsCount hwmon 1)
         \<and> sorted_wrt (<) (map number sensors)"
proof -
  define cnt where "cnt = countSensors fsCount hwmon 1"
  from assms have sensors:
    "sensors = List.map_filter (sensorAt fsRead devName hwmon cnt)
                 (takeWhile (inputReadable fsRead hwmon) [1..cnt])"
    by (simp add: GetSensorData_def Let_def readSensors_eq cnt_def split: if_splits)
  have "1 \<le> number s \<and> number s \<le> count s \<and> count s = cnt" if "s \<in> set sensors" for s
  proof -
    from that obtain i where
      i: "i \<in> set (takeWhile (inputReadable fsRead hwmon) [1..cnt])"
      and s: "sensorAt fsRead devName hwmon cnt i = Some s"
      unfolding sensors by (blast dest: map_filter_sensorAt_member)
    from i have "i \<in> set [1..cnt]"
      by (rule set_takeWhileD [THEN conjunct1])
    moreover from s have "number s = i" "count s = cnt"
      by (auto simp: sensorAt_def)
    ultimately show ?thesis
      by simp
  qed
  moreover have "sorted_wrt (<) (map number sensors)"
  proof -
    have "sorted_wrt (<) [1..cnt]"
      by (rule sorted_wrt_upto)
    then have "sorted_wrt (<) (takeWhile (inputReadable fsRead hwmon) [1..cnt])"
      by (rule sorted_wrt_takeWhile)
    then show ?thesis
      unfolding sensors map_filter_sensorAt_number by (rule sorted_wrt_filter)
  qed
  ultimately show ?thesis
    unfolding cnt_def by blast
qed

theorem GetSensorData_numbers_witness:
  "GetSensorData fsThreeInputs fsThreeInputs ''k10temp'' ''hwmon0'' =
     Inr [\<lparr>name = ''k10temp'', path = ''/sys/class/hwmon/hwmon0/temp1_input'',
            category = ''temp'', intData = 45000, number = 1, count = 3\<rparr>,
          \<lparr>name = ''k10temp'', path = ''/sys/class/hwmon/hwmon0/temp3_input'',
            category = ''temp'', intData = 50000, number = 3, count = 3\<rparr>]
   \<and> countSensors fsThreeInputs ''hwmon0'' 1 = 3
   \<and> sorted_wrt (<) [1, 3 :: int]"
proof -
  have c: "countSensors fsThreeInputs ''hwmon0'' 1 = 3"
    by (simp add: countSensors.simps evalPaths fsThreeInputs_def)
  have r: "readSensors fsThreeInputs ''k10temp'' ''hwmon0'' 3 1 [] =
     [\<lparr>name = ''k10temp'', path = ''/sys/class/hwmon/hwmon0/temp1_input'',
            category = ''temp'', intData = 45000, number = 1, count = 3\<rparr>,
          \<lparr>name = ''k10temp'', path = ''/sys/class/hwmon/hwmon0/temp3_input'',
            category = ''temp'', intData = 50000, number = 3, count = 3\<rparr>]"
    by (simp add: readSensors.simps evalPaths evalAtoi fsThreeInputs_def)
  have g: "GetSensorData fsThreeInputs fsThreeInputs ''k10temp'' ''hwmon0'' =
     Inr [\<lparr>name = ''k10temp'', path = ''/sys/class/hwmon/hwmon0/temp1_input'',
            category = ''temp'', intData = 45000, number = 1, count = 3\<rparr>,
          \<lparr>name = ''k10temp'', path = ''/sys/class/hwmon/hwmon0/temp3_input'',
            category = ''temp'', intData = 50000, number = 3, count = 3\<rparr>]"
    by (simp add: GetSensorData_def c r)
  from GetSensorData_numbers [OF g] c g show ?thesis
    by simp
qed

subsection \<open>The detection pass\<close>

text \<open>
  The label of a device directory in a snapshot: the trimmed content of its name file,
  when that file can be read and is not empty.
\<close>

definition deviceLabel :: "filesystem \<Rightarrow> string \<Rightarrow> string option" where
  "deviceLabel fs dir =
     (case ReadFile fs (nameFilePath dir) of
        None \<Rightarrow> None
      | Some rawName \<Rightarrow> if rawName = [] then None else Some (Trim rawName spaceNewline))"

text \<open>The variables as the detection pass of a run leaves them.\<close>

definition detectedGlobals :: "filesystem \<Rightarrow> string list \<Rightarrow> Globals" where
  "detectedGlobals fs dirs = snd (SetGlobalSensorFlags fs dirs initialGlobals)"

definition fsFam15h :: filesystem where
  "fsFam15h =
     [(''/sys/class/hwmon/hwmon2/name'', ''k10temp'' @ [CHR 0x0A]),
      (''/sys/class/hwmon/hwmon2/temp1_input'', ''50000''),
      (''/sys/class/hwmon/hwmon1/name'', ''fam15h_power'' @ [CHR 0x0A]),
      (''/proc/cpuinfo'', ''model name : AMD FX(tm)-8350 Eight-Core Processor'')]"

lemma Contains_iff: "Contains s substr \<longleftrightarrow> (\<exists>ps ss. s = ps @ substr @ ss)"
proof (induction s)
  case Nil
  show ?case by auto
next
  case (Cons c cs)
  have "(\<exists>ps ss. c # cs = ps @ substr @ ss) \<longleftrightarrow>
          prefix substr (c # cs) \<or> (\<exists>ps ss. cs = ps @ substr @ ss)"
    using sublist_Cons_right [of substr c cs] by (simp only: sublist_def)
  with Cons show ?case
    by simp
qed

lemma scanDeviceNames_flag:
  "digitalAmdPowerModuleInUse (scanDeviceNames fs dirs g) \<longleftrightarrow>
     digitalAmdPowerModuleInUse g \<or> (\<exists>dir\<in>set dirs. deviceLabel fs dir = Some ''fam15h_power'')"
proof (induction dirs arbitrary: g)
  case Nil
  show ?case by simp
next
  case (Cons dir dirs)
  show ?case
  proof (cases "deviceLabel fs dir")
    case None
    then have "scanDeviceNames fs (dir # dirs) g = scanDeviceNames fs dirs g"
      by (auto simp: deviceLabel_def split: option.splits if_splits)
    with None Cons.IH [of g] show ?thesis
      by simp
  next
    case (Some label)
    define g2 where
      "g2 = (let g1 = (if int (length label) > maxEntryLength g
                       then g\<lparr>maxEntryLength := int (length label)\<rparr> else g)
             in if label = ''fam15h_power''
                then g1\<lparr>digitalAmdPowerModuleInUse := True\<rparr> else g1)"
    from Some have "scanDeviceNames fs (dir # dirs) g = scanDeviceNames fs dirs g2"
      by (auto simp: deviceLabel_def g2_def Let_def split: option.splits if_splits)
    moreover have "digitalAmdPowerModuleInUse g2 \<longleftrightarrow>
                     digitalAmdPowerModuleInUse g \<or> label = ''fam15h_power''"
      by (simp add: g2_def Let_def)
    ultimately show ?thesis
      using Some Cons.IH [of g2] by auto
  qed
qed

lemma scanDeviceNames_maxEntryLength:
  "maxEntryLength (scanDeviceNames fs dirs g) =
     Max (insert (maxEntryLength g)
            ((\<lambda>label. int (length label)) ` {label. \<exists>dir\<in>set dirs. deviceLabel fs dir = Some label}))"
proof (induction dirs arbitrary: g)
  case Nil
  show ?case by simp
next
  case (Cons dir dirs)
  define S where
    "S = (\<lambda>label. int (length label)) ` {label. \<exists>d\<in>set dirs. deviceLabel fs d = Some label}"
  have "{label. \<exists>d\<in>set dirs. deviceLabel fs d = Some label} \<subseteq> (\<lambda>d. the (deviceLabel fs d)) ` set dirs"
    by force
  then have "finite {label. \<exists>d\<in>set dirs. deviceLabel fs d = Some label}"
    by (rule finite_subset) simp
  then have fin: "finite S"
    by (simp add: S_def)
  show ?case
  proof (cases "deviceLabel fs dir")
    case None
    then have "scanDeviceNames fs (dir # dirs) g = scanDeviceNames fs dirs g"
      by (auto simp: deviceLabel_def split: option.splits if_splits)
    moreover from None have
      "{label. \<exists>d\<in>set (dir # dirs). deviceLabel fs d = Some label} =
       {label. \<exists>d\<in>set dirs. deviceLabel fs d = Some label}"
      by auto
    ultimately show ?thesis
      using Cons.IH [of g] by simp
  next
    case (Some label)
    define g2 where
      "g2 = (let g1 = (if int (length label) > maxEntryLength g
                       then g\<lparr>maxEntryLength := int (length label)\<rparr> else g)
             in if label = ''fam15h_power''
                then g1\<lparr>digitalAmdPowerModuleInUse := True\<rparr> else g1)"
    from Some have step: "scanDeviceNames fs (dir # dirs) g = scanDeviceNames fs dirs g2"
      by (auto simp: deviceLabel_def g2_def Let_def split: option.splits if_splits)
    have g2: "maxEntryLength g2 = max (maxEntryLength g) (int (length label))"
      by (simp add: g2_def Let_def)
    from Some have
      "{l. \<exists>d\<in>set (dir # dirs). deviceLabel fs d = Some l} =
       insert label {l. \<exists>d\<in>set dirs. deviceLabel fs d = Some l}"
      by auto
    then have set: "(\<lambda>label. int (length label)) `
        {l. \<exists>d\<in>set (dir # dirs). deviceLabel fs d = Some l} = insert (int (length label)) S"
      by (simp add: S_def)
    have "Max (insert (max (maxEntryLength g) (int (length label))) S) =
            Max (insert (maxEntryLength g) (insert (int (length label)) S))"
      using fin by (cases "S = {}") (simp_all add: max.assoc)
    then show ?thesis
      unfolding step set using Cons.IH [of g2] by (simp add: g2 S_def)
  qed
qed

lemma scanDeviceNames_set:
  assumes "set dirs' = set dirs"
  shows "scanDeviceNames fs dirs' g = scanDeviceNames fs dirs g"
proof (rule Globals.equality)
  show "digitalAmdPowerModuleInUse (scanDeviceNames fs dirs' g) =
          digitalAmdPowerModuleInUse (scanDeviceNames fs dirs g)"
    by (simp only: scanDeviceNames_flag assms)
  show "maxEntryLength (scanDeviceNames fs dirs' g) = maxEntryLength (scanDeviceNames fs dirs g)"
    by (simp only: scanDeviceNames_maxEntryLength assms)
qed simp

lemma SetGlobalSensorFlags_set:
  assumes "set dirs' = set dirs"
  shows "SetGlobalSensorFlags fs dirs' g = SetGlobalSensorFlags fs dirs g"
proof -
  from assms have "dirs' = [] \<longleftrightarrow> dirs = []"
    by auto
  then show ?thesis
    by (simp add: SetGlobalSensorFlags_def scanDeviceNames_set [OF assms])
qed

lemma SetGlobalSensorFlags_no_error: "dirs \<noteq> [] \<Longrightarrow> fst (SetGlobalSensorFlags fs dirs g) = None"
  by (simp add: SetGlobalSensorFlags_def Let_def split: option.splits)

lemma SetGlobalSensorFlags_flag:
  assumes "dirs \<noteq> []"
  shows "digitalAmdPowerModuleInUse (snd (SetGlobalSensorFlags fs dirs g)) \<longleftrightarrow>
           digitalAmdPowerModuleInUse g
           \<or> (\<exists>dir\<in>set dirs. deviceLabel fs dir = Some ''fam15h_power'')
           \<or> (\<exists>cpuinfo. ReadFile fs cpuinfoDirectory = Some cpuinfo \<and> cpuinfo \<noteq> []
                 \<and> Contains cpuinfo ''Ryzen'')"
  using assms
  by (auto simp: SetGlobalSensorFlags_def Let_def scanDeviceNames_flag split: option.splits)

text \<open>
  C2. After the detection pass over a non-empty device list, which then returns no
  error, the flag is true if and only if some device has a name file that can be read,
  is not empty and whose trimmed content is exactly \<open>fam15h_power\<close>, or the CPU
  identification file can be read, is not empty and contains \<open>Ryzen\<close>. Devices
  without a readable, non-empty name file do not count, and nothing else sets the flag.
\<close>

theorem SetGlobalSensorFlags_flag_iff:
  assumes "dirs \<noteq> []"
  shows "fst (SetGlobalSensorFlags fs dirs initialGlobals) = None
         \<and> (digitalAmdPowerModuleInUse (snd (SetGlobalSensorFlags fs dirs initialGlobals)) \<longleftrightarrow>
              (\<exists>dir\<in>set dirs. \<exists>rawName. ReadFile fs (nameFilePath dir) = Some rawName
                  \<and> rawName \<noteq> [] \<and> Trim rawName spaceNewline = ''fam15h_power'')
              \<or> (\<exists>cpuinfo. ReadFile fs cpuinfoDirectory = Some cpuinfo \<and> cpuinfo \<noteq> []
                    \<and> (\<exists>before after. cpuinfo = before @ ''Ryzen'' @ after)))"
proof -
  have "deviceLabel fs dir = Some ''fam15h_power'' \<longleftrightarrow>
          (\<exists>rawName. ReadFile fs (nameFilePath dir) = Some rawName
              \<and> rawName \<noteq> [] \<and> Trim rawName spaceNewline = ''fam15h_power'')" for dir
    by (auto simp: deviceLabel_def split: option.splits)
  then show ?thesis
    using SetGlobalSensorFlags_flag [OF assms, of fs initialGlobals]
      SetGlobalSensorFlags_no_error [OF assms, of fs initialGlobals]
    by (simp add: initialGlobals_def Contains_iff)
qed

theorem SetGlobalSensorFlags_flag_iff_witness:
  "[''hwmon1'', ''hwmon2''] \<noteq> []
   \<and> fst (SetGlobalSensorFlags fsFam15h [''hwmon1'', ''hwmon2''] initialGlobals) = None
   \<and> digitalAmdPowerModuleInUse
        (snd (SetGlobalSensorFlags fsFam15h [''hwmon1'', ''hwmon2''] initialGlobals))
   \<and> ReadFile fsFam15h (nameFilePath ''hwmon1'') = Some (''fam15h_power'' @ [CHR 0x0A])
   \<and> Trim (''fam15h_power'' @ [CHR 0x0A]) spaceNewline = ''fam15h_power''"
proof -
  have ne: "[''hwmon1'', ''hwmon2''] \<noteq> ([] :: string list)"
    by simp
  have rd: "ReadFile fsFam15h (nameFilePath ''hwmon1'') = Some (''fam15h_power'' @ [CHR 0x0A])"
    by (simp add: evalPaths fsFam15h_def)
  have tr: "Trim (''fam15h_power'' @ [CHR 0x0A]) spaceNewline = ''fam15h_power''"
    by (simp add: Trim_def spaceNewline_def)
  from rd tr have
    "\<exists>dir\<in>set [''hwmon1'', ''hwmon2'']. \<exists>rawName.
        ReadFile fsFam15h (nameFilePath dir) = Some rawName
        \<and> rawName \<noteq> [] \<and> Trim rawName spaceNewline = ''fam15h_power''"
    by (intro bexI [of _ "''hwmon1''"] exI [of _ "''fam15h_power'' @ [CHR 0x0A]"]) simp_all
  with SetGlobalSensorFlags_flag_iff [OF ne, of fsFam15h] have
    "fst (SetGlobalSensorFlags fsFam15h [''hwmon1'', ''hwmon2''] initialGlobals) = None"
    "digitalAmdPowerModuleInUse
        (snd (SetGlobalSensorFlags fsFam15h [''hwmon1'', ''hwmon2''] initialGlobals))"
    by blast+
  with rd tr show ?thesis
    by simp
qed

subsection \<open>The report\<close>

definition fsCoretemp :: filesystem where
  "fsCoretemp =
     [(''/sys/class/hwmon/hwmon3/name'', ''coretemp'' @ [CHR 0x0A]),
      (''/sys/class/hwmon/hwmon3/temp1_input'', ''abc''),
      (''/sys/class/hwmon/hwmon0/name'', ''k10temp'' @ [CHR 0x0A]),
      (''/sys/class/hwmon/hwmon0/temp1_input'', ''45000'' @ [CHR 0x0A]),
      (''/sys/class/hwmon/hwmon5/temp1_input'', ''38000'' @ [CHR 0x0A])]"

lemmas evalMain =
  main_def SetGlobalSensorFlags_def deviceLines_def GetSensorData_def countSensors.simps
  readSensors.simps sensorLine_def normalizeSensor_def padName.simps initialGlobals_def
  spacerSize_def goDiv_def wrapInt_def detectedGlobals_def deviceLabel_def

lemma main_report:
  assumes "dirs \<noteq> []"
  shows "main (Some dirs) fs =
           Report (concat (map (deviceLines fs (detectedGlobals fs dirs)) dirs))"
proof -
  obtain err g where r: "SetGlobalSensorFlags fs dirs initialGlobals = (err, g)"
    by (cases "SetGlobalSensorFlags fs dirs initialGlobals")
  with SetGlobalSensorFlags_no_error [OF assms, of fs initialGlobals] have "err = None"
    by simp
  with r show ?thesis
    by (simp add: main_def detectedGlobals_def)
qed

lemma deviceLines_no_label: "deviceLabel fs dir = None \<Longrightarrow> deviceLines fs g dir = []"
  by (auto simp: deviceLabel_def deviceLines_def split: option.splits if_splits)

lemma deviceLines_error:
  assumes "deviceLabel fs dir = Some label" and "GetSensorData fs fs label dir = Inl err"
  shows "deviceLines fs g dir =
           [NotAvailable dir (padName label (maxEntryLength g + spacerSize))]"
  using assms
  by (auto simp: deviceLabel_def deviceLines_def Let_def split: option.splits if_splits)

lemma deviceLines_sensors:
  assumes "deviceLabel fs dir = Some label" and "GetSensorData fs fs label dir = Inr sensors"
  shows "deviceLines fs g dir = map (sensorLine g dir) sensors"
proof -
  from assms(2) have "sensors \<noteq> []"
    by (auto simp: GetSensorData_def Let_def split: if_splits)
  with assms show ?thesis
    by (auto simp: deviceLabel_def deviceLines_def Let_def split: option.splits if_splits)
qed

lemma deviceLines_lineDevice: "line \<in> set (deviceLines fs g dir) \<Longrightarrow> lineDevice line = dir"
  by (auto simp: deviceLines_def sensorLine_def Let_def split: option.splits if_splits sum.splits)

lemma deviceLines_not_Nil: "deviceLabel fs dir = Some label \<Longrightarrow> deviceLines fs g dir \<noteq> []"
  by (cases "GetSensorData fs fs label dir")
     (auto simp: deviceLines_error deviceLines_sensors GetSensorData_def Let_def split: if_splits)

lemma GetSensorData_sensor_fields:
  assumes "GetSensorData fsCount fsRead devName hwmon = Inr sensors" and "s \<in> set sensors"
  shows "name s = devName \<and> category s = tempPrefix \<and> 1 \<le> intData s \<and> inIntRange (intData s)"
proof -
  from assms(1) have
    "sensors = List.map_filter (sensorAt fsRead devName hwmon (countSensors fsCount hwmon 1))
                 (takeWhile (inputReadable fsRead hwmon) [1..countSensors fsCount hwmon 1])"
    by (simp add: GetSensorData_def Let_def readSensors_eq split: if_splits)
  with assms(2) obtain i where
    "sensorAt fsRead devName hwmon (countSensors fsCount hwmon 1) i = Some s"
    by (blast dest: map_filter_sensorAt_member)
  then obtain v where "validReading fsRead hwmon i = Some v"
    and "s = \<lparr>name = devName, path = sensorPath hwmon i, category = tempPrefix,
              intData = v, number = i, count = countSensors fsCount hwmon 1\<rparr>"
    by (auto simp: sensorAt_def)
  then show ?thesis
    using validReading_range [of fsRead hwmon i v] by simp
qed

text \<open>
  C6. \<open>GetSensorData\<close> returns the invalid-input error exactly for an empty device
  name or directory name, and the no-valid-sensors error exactly when the names are
  not empty and no index that the second loop reaches has a valid reading; it has no
  other error. The caller prints one \<open>N/A\<close> line for a device whose call failed, and
  the run goes on: on a non-empty listing it ends with the report over all devices.
\<close>

theorem GetSensorData_error_recoverable:
  "(GetSensorData fsCount fsRead devName hwmon = Inl InvalidInput \<longleftrightarrow>
      devName = [] \<or> hwmon = [])
   \<and> (GetSensorData fsCount fsRead devName hwmon = Inl NoValidSensors \<longleftrightarrow>
        devName \<noteq> [] \<and> hwmon \<noteq> []
        \<and> filter (\<lambda>i. validReading fsRead hwmon i \<noteq> None)
            (takeWhile (inputReadable fsRead hwmon) [1..countSensors fsCount hwmon 1]) = [])
   \<and> (deviceLabel fs dir = Some label \<and> GetSensorData fs fs label dir = Inl err \<longrightarrow>
        deviceLines fs g dir = [NotAvailable dir (padName label (maxEntryLength g + spacerSize))])
   \<and> (dirs \<noteq> [] \<longrightarrow>
        main (Some dirs) fs =
          Report (concat (map (deviceLines fs (detectedGlobals fs dirs)) dirs)))"
proof -
  have "map number (readSensors fsRead devName hwmon (countSensors fsCount hwmon 1) 1 []) =
          filter (\<lambda>i. validReading fsRead hwmon i \<noteq> None)
            (takeWhile (inputReadable fsRead hwmon) [1..countSensors fsCount hwmon 1])"
    unfolding readSensors_eq append_Nil map_filter_sensorAt_number by (rule refl)
  then have "readSensors fsRead devName hwmon (countSensors fsCount hwmon 1) 1 [] = [] \<longleftrightarrow>
          filter (\<lambda>i. validReading fsRead hwmon i \<noteq> None)
            (takeWhile (inputReadable fsRead hwmon) [1..countSensors fsCount hwmon 1]) = []"
    by (metis map_is_Nil_conv)
  then have "(GetSensorData fsCount fsRead devName hwmon = Inl InvalidInput \<longleftrightarrow>
      devName = [] \<or> hwmon = [])
   \<and> (GetSensorData fsCount fsRead devName hwmon = Inl NoValidSensors \<longleftrightarrow>
        devName \<noteq> [] \<and> hwmon \<noteq> []
        \<and> filter (\<lambda>i. validReading fsRead hwmon i \<noteq> None)
            (takeWhile (inputReadable fsRead hwmon) [1..countSensors fsCount hwmon 1]) = [])"
    by (simp add: GetSensorData_def Let_def)
  then show ?thesis
    using deviceLines_error [of fs dir label err g] main_report [of dirs fs] by blast
qed

theorem GetSensorData_error_recoverable_witness:
  "deviceLabel fsCoretemp ''hwmon3'' = Some ''coretemp''
   \<and> GetSensorData fsCoretemp fsCoretemp ''coretemp'' ''hwmon3'' = Inl NoValidSensors
   \<and> [''hwmon3'', ''hwmon0''] \<noteq> []
   \<and> main (Some [''hwmon3'', ''hwmon0'']) fsCoretemp =
       Report [NotAvailable ''hwmon3'' ''coretemp    '',
               Reading ''hwmon0'' ''k10temp     '' 75 ''C   temperature sensor 1'']"
proof -
  have label: "deviceLabel fsCoretemp ''hwmon3'' = Some ''coretemp''"
    by (simp add: deviceLabel_def evalPaths evalAtoi fsCoretemp_def)
  have err: "GetSensorData fsCoretemp fsCoretemp ''coretemp'' ''hwmon3'' = Inl NoValidSensors"
    by (simp add: evalMain evalPaths evalAtoi fsCoretemp_def)
  have ne: "[''hwmon3'', ''hwmon0''] \<noteq> ([] :: string list)"
    by simp
  have g: "detectedGlobals fsCoretemp [''hwmon3'', ''hwmon0''] =
             \<lparr>digitalAmdPowerModuleInUse = False, maxEntryLength = 8\<rparr>"
    by (simp add: evalMain evalPaths evalAtoi fsCoretemp_def)
  have pad: "padName ''coretemp'' 12 = ''coretemp    ''"
    by (simp add: padName.simps)
  have other: "deviceLines fsCoretemp \<lparr>digitalAmdPowerModuleInUse = False, maxEntryLength = 8\<rparr>
                 ''hwmon0'' = [Reading ''hwmon0'' ''k10temp     '' 75 ''C   temperature sensor 1'']"
    by (simp add: evalMain evalPaths evalAtoi fsCoretemp_def)
  from GetSensorData_error_recoverable
         [of fsCoretemp fsCoretemp "''coretemp''" "''hwmon3''" fsCoretemp "''hwmon3''"
            "''coretemp''" NoValidSensors "\<lparr>digitalAmdPowerModuleInUse = False, maxEntryLength = 8\<rparr>"
            "[''hwmon3'', ''hwmon0'']"]
    label err ne
  have "deviceLines fsCoretemp \<lparr>digitalAmdPowerModuleInUse = False, maxEntryLength = 8\<rparr> ''hwmon3'' =
          [NotAvailable ''hwmon3'' (padName ''coretemp'' (8 + spacerSize))]"
    and "main (Some [''hwmon3'', ''hwmon0'']) fsCoretemp =
          Report (concat (map (deviceLines fsCoretemp
              (detectedGlobals fsCoretemp [''hwmon3'', ''hwmon0''])) [''hwmon3'', ''hwmon0'']))"
    by simp_all
  with label err g pad other show ?thesis
    by (simp add: spacerSize_def)
qed

text \<open>
  C5. In a listing that holds a device labelled \<open>k10temp\<close>, for which
  \<open>GetSensorData\<close> returns readings, and a device labelled \<open>fam15h_power\<close>, the run
  prints for the k10temp device one line per reading with the raw value divided by
  1000 and no offset. This does not depend on the order of the listing: a listing of
  the same devices in any other order gives the same variables after the detection
  pass, so the same lines for the device.
\<close>

theorem k10temp_with_fam15h_power:
  assumes "dk \<in> set dirs" and "df \<in> set dirs"
    and "deviceLabel fs dk = Some ''k10temp''"
    and "deviceLabel fs df = Some ''fam15h_power''"
    and "GetSensorData fs fs ''k10temp'' dk = Inr sensors"
    and "set dirs' = set dirs"
  shows "main (Some dirs) fs =
           Report (concat (map (deviceLines fs (detectedGlobals fs dirs)) dirs))
         \<and> main (Some dirs') fs =
             Report (concat (map (deviceLines fs (detectedGlobals fs dirs)) dirs'))
         \<and> deviceLines fs (detectedGlobals fs dirs) dk =
             map (\<lambda>s. Reading dk
                        (padName ''k10temp'' (maxEntryLength (detectedGlobals fs dirs) + spacerSize))
                        (intData s div 1000)
                        (''C   temperature sensor '' @ Itoa (number s)))
               sensors"
proof -
  define g where "g = detectedGlobals fs dirs"
  from assms(1) have ne: "dirs \<noteq> []"
    by auto
  with assms(6) have ne': "dirs' \<noteq> []"
    by auto
  have same: "detectedGlobals fs dirs' = g"
    unfolding g_def detectedGlobals_def by (simp only: SetGlobalSensorFlags_set [OF assms(6)])
  have flag: "digitalAmdPowerModuleInUse g"
    unfolding g_def detectedGlobals_def
    using SetGlobalSensorFlags_flag [OF ne, of fs initialGlobals] assms(2,4) by blast
  have line: "sensorLine g dk s =
                Reading dk (padName ''k10temp'' (maxEntryLength g + spacerSize))
                  (intData s div 1000) (''C   temperature sensor '' @ Itoa (number s))"
    if "s \<in> set sensors" for s
  proof -
    from GetSensorData_sensor_fields [OF assms(5) that] have
      f: "name s = ''k10temp''" "category s = ''temp''" "1 \<le> intData s"
      by (simp_all add: tempPrefix_def)
    from f(3) have "goDiv (intData s) 1000 = intData s div 1000"
      by (simp add: goDiv_def)
    with f(1,2) flag show ?thesis
      by (simp add: sensorLine_def normalizeSensor_def Let_def)
  qed
  have "deviceLines fs g dk = map (sensorLine g dk) sensors"
    using assms(3,5) by (rule deviceLines_sensors)
  also have "\<dots> = map (\<lambda>s. Reading dk (padName ''k10temp'' (maxEntryLength g + spacerSize))
                  (intData s div 1000) (''C   temperature sensor '' @ Itoa (number s))) sensors"
    using line by (intro map_cong refl)
  finally show ?thesis
    using main_report [OF ne, of fs] main_report [OF ne', of fs] same
    unfolding g_def by simp
qed

theorem k10temp_with_fam15h_power_witness:
  "''hwmon2'' \<in> set [''hwmon1'', ''hwmon2''] \<and> ''hwmon1'' \<in> set [''hwmon1'', ''hwmon2'']
   \<and> deviceLabel fsFam15h ''hwmon2'' = Some ''k10temp''
   \<and> deviceLabel fsFam15h ''hwmon1'' = Some ''fam15h_power''
   \<and> GetSensorData fsFam15h fsFam15h ''k10temp'' ''hwmon2'' =
       Inr [\<lparr>name = ''k10temp'', path = ''/sys/class/hwmon/hwmon2/temp1_input'',
             category = ''temp'', intData = 50000, number = 1, count = 1\<rparr>]
   \<and> set [''hwmon2'', ''hwmon1''] = set [''hwmon1'', ''hwmon2'']
   \<and> deviceLines fsFam15h (detectedGlobals fsFam15h [''hwmon1'', ''hwmon2'']) ''hwmon2'' =
       [Reading ''hwmon2'' ''k10temp         '' 50 ''C   temperature sensor 1'']
   \<and> main (Some [''hwmon2'', ''hwmon1'']) fsFam15h =
       Report [Reading ''hwmon2'' ''k10temp         '' 50 ''C   temperature sensor 1'',
               NotAvailable ''hwmon1'' ''fam15h_power    '']"
proof -
  have k: "deviceLabel fsFam15h ''hwmon2'' = Some ''k10temp''"
    by (simp add: deviceLabel_def evalPaths evalAtoi fsFam15h_def)
  have f: "deviceLabel fsFam15h ''hwmon1'' = Some ''fam15h_power''"
    by (simp add: deviceLabel_def evalPaths evalAtoi fsFam15h_def)
  have s: "GetSensorData fsFam15h fsFam15h ''k10temp'' ''hwmon2'' =
       Inr [\<lparr>name = ''k10temp'', path = ''/sys/class/hwmon/hwmon2/temp1_input'',
             category = ''temp'', intData = 50000, number = 1, count = 1\<rparr>]"
    by (simp add: evalMain evalPaths evalAtoi fsFam15h_def)
  have perm: "set [''hwmon2'', ''hwmon1''] = set [''hwmon1'', ''hwmon2'']"
    by auto
  have g: "detectedGlobals fsFam15h [''hwmon1'', ''hwmon2''] =
             \<lparr>digitalAmdPowerModuleInUse = True, maxEntryLength = 12\<rparr>"
    by (simp add: evalMain evalPaths evalAtoi fsFam15h_def)
  have pad: "padName ''k10temp'' 16 = ''k10temp         ''"
    by (simp add: padName.simps)
  have other: "deviceLines fsFam15h \<lparr>digitalAmdPowerModuleInUse = True, maxEntryLength = 12\<rparr>
                 ''hwmon1'' = [NotAvailable ''hwmon1'' ''fam15h_power    '']"
    by (simp add: evalMain evalPaths evalAtoi fsFam15h_def)
  have one: "Itoa 1 = ''1''"
    by (simp add: evalPaths)
  from k10temp_with_fam15h_power [OF _ _ k f s perm] have
    "main (Some [''hwmon2'', ''hwmon1'']) fsFam15h =
       Report (concat (map (deviceLines fsFam15h
          (detectedGlobals fsFam15h [''hwmon1'', ''hwmon2''])) [''hwmon2'', ''hwmon1'']))"
    and "deviceLines fsFam15h (detectedGlobals fsFam15h [''hwmon1'', ''hwmon2'']) ''hwmon2'' =
       [Reading ''hwmon2''
          (padName ''k10temp''
             (maxEntryLength (detectedGlobals fsFam15h [''hwmon1'', ''hwmon2'']) + spacerSize))
          (50000 div 1000) (''C   temperature sensor '' @ Itoa 1)]"
    by simp_all
  with k f s perm g pad other one show ?thesis
    by (simp add: spacerSize_def)
qed

subsection \<open>Which devices the report lists\<close>

definition fsNoNameFile :: filesystem where
  "fsNoNameFile = [(''/sys/class/hwmon/hwmon5/temp1_input'', ''38000'' @ [CHR 0x0A])]"

text \<open>
  The claim as the spec words it fails: a listed device without a name file is passed
  over without a line, although its input file holds a valid reading. The run ends
  normally with an empty report.
\<close>

theorem device_without_name_file_counterexample:
  "main (Some [''hwmon5'']) fsNoNameFile = Report []
   \<and> exitStatus (main (Some [''hwmon5'']) fsNoNameFile) = 0
   \<and> ReadFile fsNoNameFile (nameFilePath ''hwmon5'') = None
   \<and> validReading fsNoNameFile ''hwmon5'' 1 = Some 38000"
  by (simp add: evalMain evalPaths evalAtoi validReading_def fsNoNameFile_def)

text \<open>
  C7, as the code has it. On a non-empty listing, a listed device appears in the report
  exactly when its name file can be read and is not empty. Such a device is listed with
  the \<open>N/A\<close> marker when \<open>GetSensorData\<close> fails for it (no input file, or no valid
  reading); a device whose name file is missing, unreadable or empty has no line.
\<close>

theorem report_lists_labelled_devices:
  assumes "dirs \<noteq> []" and "dir \<in> set dirs"
  shows "((\<exists>line\<in>set (reportLines (main (Some dirs) fs)). lineDevice line = dir) \<longleftrightarrow>
            deviceLabel fs dir \<noteq> None)
         \<and> (\<forall>label err. deviceLabel fs dir = Some label
               \<and> GetSensorData fs fs label dir = Inl err \<longrightarrow>
               NotAvailable dir
                 (padName label (maxEntryLength (detectedGlobals fs dirs) + spacerSize))
               \<in> set (reportLines (main (Some dirs) fs)))"
proof -
  define g where "g = detectedGlobals fs dirs"
  have lines: "set (reportLines (main (Some dirs) fs)) = (\<Union>d\<in>set dirs. set (deviceLines fs g d))"
    by (simp add: main_report [OF assms(1)] g_def)
  have own: "{line \<in> set (reportLines (main (Some dirs) fs)). lineDevice line = dir} =
               set (deviceLines fs g dir)"
    unfolding lines using assms(2) by (auto dest: deviceLines_lineDevice)
  have "(\<exists>line\<in>set (reportLines (main (Some dirs) fs)). lineDevice line = dir) \<longleftrightarrow>
          deviceLines fs g dir \<noteq> []"
  proof -
    have "(\<exists>line\<in>set (reportLines (main (Some dirs) fs)). lineDevice line = dir) \<longleftrightarrow>
            {line \<in> set (reportLines (main (Some dirs) fs)). lineDevice line = dir} \<noteq> {}"
      by blast
    then show ?thesis
      unfolding own by simp
  qed
  also have "\<dots> \<longleftrightarrow> deviceLabel fs dir \<noteq> None"
    using deviceLines_no_label [of fs dir g] deviceLines_not_Nil [of fs dir _ g] by auto
  finally have first: "(\<exists>line\<in>set (reportLines (main (Some dirs) fs)). lineDevice line = dir) \<longleftrightarrow>
            deviceLabel fs dir \<noteq> None" .
  have "NotAvailable dir (padName label (maxEntryLength g + spacerSize))
          \<in> set (reportLines (main (Some dirs) fs))"
    if "deviceLabel fs dir = Some label" and "GetSensorData fs fs label dir = Inl err"
    for label err
    unfolding lines using assms(2) deviceLines_error [OF that, of g] by force
  with first show ?thesis
    unfolding g_def by blast
qed

theorem report_lists_labelled_devices_witness:
  "[''hwmon5'', ''hwmon3''] \<noteq> [] \<and> ''hwmon3'' \<in> set [''hwmon5'', ''hwmon3'']
   \<and> deviceLabel fsCoretemp ''hwmon3'' = Some ''coretemp''
   \<and> GetSensorData fsCoretemp fsCoretemp ''coretemp'' ''hwmon3'' = Inl NoValidSensors
   \<and> NotAvailable ''hwmon3'' ''coretemp    ''
       \<in> set (reportLines (main (Some [''hwmon5'', ''hwmon3'']) fsCoretemp))
   \<and> main (Some [''hwmon5'', ''hwmon3'']) fsCoretemp = Report [NotAvailable ''hwmon3'' ''coretemp    '']"
proof -
  have ne: "[''hwmon5'', ''hwmon3''] \<noteq> ([] :: string list)"
    by simp
  have mem: "''hwmon3'' \<in> set [''hwmon5'', ''hwmon3'']"
    by simp
  have label: "deviceLabel fsCoretemp ''hwmon3'' = Some ''coretemp''"
    by (simp add: deviceLabel_def evalPaths evalAtoi fsCoretemp_def)
  have err: "GetSensorData fsCoretemp fsCoretemp ''coretemp'' ''hwmon3'' = Inl NoValidSensors"
    by (simp add: evalMain evalPaths evalAtoi fsCoretemp_def)
  have g: "detectedGlobals fsCoretemp [''hwmon5'', ''hwmon3''] =
             \<lparr>digitalAmdPowerModuleInUse = False, maxEntryLength = 8\<rparr>"
    by (simp add: evalMain evalPaths evalAtoi fsCoretemp_def)
  have pad: "padName ''coretemp'' 12 = ''coretemp    ''"
    by (simp add: padName.simps)
  have run: "main (Some [''hwmon5'', ''hwmon3'']) fsCoretemp =
               Report [NotAvailable ''hwmon3'' ''coretemp    '']"
    by (simp add: evalMain evalPaths evalAtoi fsCoretemp_def)
  from report_lists_labelled_devices [OF ne mem, of fsCoretemp] label err have
    "NotAvailable ''hwmon3''
       (padName ''coretemp''
          (maxEntryLength (detectedGlobals fsCoretemp [''hwmon5'', ''hwmon3'']) + spacerSize))
     \<in> set (reportLines (main (Some [''hwmon5'', ''hwmon3'']) fsCoretemp))"
    by blast
  with ne label err g pad run show ?thesis
    by (simp add: spacerSize_def)
qed

end
